theory Spec2Isabelle
  imports Complex_Main
begin

section \<open>Numbers and errors\<close>

text \<open>
  The program computes with binary floating-point numbers. They are modelled as exact
  reals: rounding and the sign of zero are left out, every other step of the arithmetic
  is kept. Where a quotient of the source has a zero divisor the model says what the
  source does there, instead of HOL's \<open>x / 0 = 0\<close>.
\<close>

datatype py_error = ZeroDivisionError | KeyError | IndexError | RuntimeError

text \<open>
  The values a float can hold besides a finite number: the two infinities and
  not-a-number. Only the performance metrics return them.
\<close>

datatype fl = Fin real | PInf | NInf | NaN

section \<open>The performance metrics (backtester/performance.py)\<close>

text \<open>
  True division of two finite floats. On Python floats a zero divisor raises
  \<open>ZeroDivisionError\<close>; on \<open>numpy.float64\<close> operands, and element by element on a
  pandas series, it warns and returns an infinity, or not-a-number for \<open>0 / 0\<close>.
  The functions of this module take whichever numbers the caller passes:
  \<open>calculate_performance\<close> passes \<open>numpy.float64\<close> values.
\<close>

definition float64_divide :: "real \<Rightarrow> real \<Rightarrow> fl" where
  "float64_divide a b =
     (if b \<noteq> 0 then Fin (a / b)
      else if a > 0 then PInf else if a < 0 then NInf else NaN)"

definition float64_truediv :: "real \<Rightarrow> real \<Rightarrow> py_error + fl" where
  "float64_truediv a b = Inr (float64_divide a b)"

definition float_truediv :: "real \<Rightarrow> real \<Rightarrow> py_error + fl" where
  "float_truediv a b = (if b = 0 then Inl ZeroDivisionError else Inr (Fin (a / b)))"

text \<open>The arithmetic on \<open>fl\<close> that the metrics use, with a finite second operand.\<close>

fun fl_minus :: "fl \<Rightarrow> real \<Rightarrow> fl" where
  "fl_minus (Fin a) c = Fin (a - c)"
| "fl_minus x c = x"

fun fl_times :: "fl \<Rightarrow> real \<Rightarrow> fl" where
  "fl_times (Fin a) c = Fin (a * c)"
| "fl_times PInf c = (if c > 0 then PInf else if c < 0 then NInf else NaN)"
| "fl_times NInf c = (if c > 0 then NInf else if c < 0 then PInf else NaN)"
| "fl_times NaN c = NaN"

fun fl_greater :: "fl \<Rightarrow> real \<Rightarrow> bool" where
  "fl_greater (Fin a) c = (a > c)"
| "fl_greater PInf c = True"
| "fl_greater NInf c = False"
| "fl_greater NaN c = False"

fun divide_by_fl :: "real \<Rightarrow> fl \<Rightarrow> fl" where
  "divide_by_fl a (Fin b) = float64_divide a b"
| "divide_by_fl a PInf = Fin 0"
| "divide_by_fl a NInf = Fin 0"
| "divide_by_fl a NaN = NaN"

text \<open>The smaller of two entries as \<open>Series.min\<close> sees them: not-a-number is skipped.\<close>

fun fl_min2 :: "fl \<Rightarrow> fl \<Rightarrow> fl" where
  "fl_min2 NaN y = y"
| "fl_min2 x NaN = x"
| "fl_min2 NInf y = NInf"
| "fl_min2 x NInf = NInf"
| "fl_min2 PInf y = y"
| "fl_min2 x PInf = x"
| "fl_min2 (Fin a) (Fin b) = Fin (min a b)"

text \<open>
  The pandas operations the module calls on a series of finite numbers.
  \<open>Series.min\<close> is not-a-number on a series with no number in it; \<open>Series.cummax\<close> is
  the running maximum; \<open>Series.std\<close> is the sample standard deviation (one degree of
  freedom removed) and not-a-number on fewer than two observations.
\<close>

fun series_min :: "fl list \<Rightarrow> fl" where
  "series_min [] = NaN"
| "series_min (x # xs) = fl_min2 x (series_min xs)"

fun cummax_from :: "real \<Rightarrow> real list \<Rightarrow> real list" where
  "cummax_from m [] = []"
| "cummax_from m (x # xs) = max m x # cummax_from (max m x) xs"

definition cummax :: "real list \<Rightarrow> real list" where
  "cummax xs = (case xs of [] \<Rightarrow> [] | x # rest \<Rightarrow> x # cummax_from x rest)"

definition mean :: "real list \<Rightarrow> real" where
  "mean xs = sum_list xs / real (length xs)"

definition std :: "real list \<Rightarrow> fl" where
  "std xs =
     (if length xs \<le> 1 then NaN
      else Fin (sqrt (sum_list (map (\<lambda>x. (x - mean xs)\<^sup>2) xs) / real (length xs - 1))))"

text \<open>With Python floats, as the signature is called from outside the class.\<close>

definition calculate_total_return :: "real \<Rightarrow> real \<Rightarrow> py_error + real" where
  "calculate_total_return final_portfolio_value initial_capital =
     (if initial_capital = 0 then Inl ZeroDivisionError
      else Inr (final_portfolio_value / initial_capital - 1))"

text \<open>
  The division of \<open>calculate_sharpe_ratio\<close> stands in a \<open>try\<close> whose handler catches
  \<open>RuntimeError\<close> alone and returns \<open>np.nan\<close>; any other exception passes through. The
  division is a parameter, so that both kinds of float can be put in.
\<close>

definition calculate_sharpe_ratio ::
  "(real \<Rightarrow> real \<Rightarrow> py_error + fl) \<Rightarrow> real \<Rightarrow> real \<Rightarrow> real \<Rightarrow> py_error + fl" where
  "calculate_sharpe_ratio truediv annualized_return annualized_volatility risk_free_rate =
     (case truediv (annualized_return - risk_free_rate) annualized_volatility of
        Inl RuntimeError \<Rightarrow> Inr NaN
      | Inl e \<Rightarrow> Inl e
      | Inr q \<Rightarrow> Inr q)"

definition calculate_sortino_ratio :: "real list \<Rightarrow> real \<Rightarrow> real \<Rightarrow> fl" where
  "calculate_sortino_ratio daily_returns annualized_return risk_free_rate =
     (let negative_returns = filter (\<lambda>r. r < 0) daily_returns;
          downside_volatility = fl_times (std negative_returns) (sqrt 252)
      in if fl_greater downside_volatility 0
         then divide_by_fl (annualized_return - risk_free_rate) downside_volatility
         else NaN)"

definition calculate_maximum_drawdown :: "real list \<Rightarrow> fl" where
  "calculate_maximum_drawdown portfolio_values =
     (let drawdown = map2 (\<lambda>v m. fl_minus (float64_divide v m) 1)
                       portfolio_values (cummax portfolio_values)
      in series_min drawdown)"

section \<open>The backtester (backtester/backtester.py)\<close>

text \<open>The dict stored per asset in \<open>assets_data\<close>.\<close>

record asset_state =
  cash :: real
  positions :: real
  position_value :: real
  total_value :: real

text \<open>
  One row of an asset's data frame, as \<open>iterrows\<close> yields it. The loop reads the
  columns \<open>close\<close> and \<open>signal\<close> only; the date index is bound and never used.
\<close>

record row =
  close :: real
  signal :: int

text \<open>The attributes of a \<open>Backtester\<close> object.\<close>

record backtester =
  initial_capital :: real
  commission_pct :: real
  commission_fixed :: real
  assets_data :: "string \<rightharpoonup> asset_state"
  portfolio_history :: "string \<rightharpoonup> real list"
  daily_portfolio_values :: "real list"

text \<open>\<open>Backtester.__init__\<close>; the defaults of the source are 10000, 0.001 and 1.\<close>

definition Backtester :: "real \<Rightarrow> real \<Rightarrow> real \<Rightarrow> backtester" where
  "Backtester capital pct fixed =
     \<lparr>initial_capital = capital, commission_pct = pct, commission_fixed = fixed,
      assets_data = Map.empty, portfolio_history = Map.empty,
      daily_portfolio_values = []\<rparr>"

definition calculate_commission :: "backtester \<Rightarrow> real \<Rightarrow> real" where
  "calculate_commission self trade_value =
     max (trade_value * commission_pct self) (commission_fixed self)"

text \<open>
  \<open>execute_trade\<close> mutates \<open>self.assets_data[asset]\<close>; the model returns the updated
  object. The conjunctions of the source short-circuit, so the asset is looked up only
  when the sign test before it succeeds: a zero signal touches nothing, not even a
  missing key. Here the numbers are Python floats, as the signature says
  (\<open>price: float\<close>): dividing by a zero price raises \<open>ZeroDivisionError\<close>. A
  \<open>numpy.float64\<close> price gives an infinity or not-a-number instead, which a real-valued
  state cannot hold: the section after this one has the same functions on such prices.
\<close>

definition execute_trade :: "backtester \<Rightarrow> string \<Rightarrow> int \<Rightarrow> real \<Rightarrow> py_error + backtester" where
  "execute_trade self asset sig price =
     (if sig > 0 then
        (case assets_data self asset of
           None \<Rightarrow> Inl KeyError
         | Some st \<Rightarrow>
             if cash st > 0 then
               (let trade_value = cash st;
                    commission = calculate_commission self trade_value
                in if price = 0 then Inl ZeroDivisionError
                   else
                     (let shares_to_buy = (trade_value - commission) / price
                      in Inr (self\<lparr>assets_data := (assets_data self)(asset \<mapsto>
                            st\<lparr>positions := positions st + shares_to_buy,
                               cash := cash st - trade_value\<rparr>)\<rparr>)))
             else Inr self)
      else if sig < 0 then
        (case assets_data self asset of
           None \<Rightarrow> Inl KeyError
         | Some st \<Rightarrow>
             if positions st > 0 then
               (let trade_value = positions st * price;
                    commission = calculate_commission self trade_value
                in Inr (self\<lparr>assets_data := (assets_data self)(asset \<mapsto>
                      st\<lparr>cash := cash st + (trade_value - commission),
                         positions := 0\<rparr>)\<rparr>))
             else Inr self)
      else Inr self)"

definition update_portfolio :: "backtester \<Rightarrow> string \<Rightarrow> real \<Rightarrow> py_error + backtester" where
  "update_portfolio self asset price =
     (case assets_data self asset of
        None \<Rightarrow> Inl KeyError
      | Some st \<Rightarrow>
          (let st1 = st\<lparr>position_value := positions st * price\<rparr>;
               st2 = st1\<lparr>total_value := cash st1 + position_value st1\<rparr>
           in case portfolio_history self asset of
                None \<Rightarrow> Inl KeyError
              | Some h \<Rightarrow>
                  Inr (self\<lparr>assets_data := (assets_data self)(asset \<mapsto> st2),
                           portfolio_history :=
                             (portfolio_history self)(asset \<mapsto> h @ [total_value st2])\<rparr>)))"

text \<open>
  The tail of the loop body of \<open>backtest\<close>: the asset's total value is appended to
  \<open>daily_portfolio_values\<close> while that list is shorter than the asset's series (\<open>n\<close> is
  \<open>len(data[asset])\<close>), and added in place at index \<open>len(portfolio_history[asset]) - 1\<close>
  otherwise. Python reads the index \<open>-1\<close> as the last element and raises \<open>IndexError\<close>
  past the end; the entry is read before the asset's total value is looked up.
\<close>

definition record_daily_value :: "backtester \<Rightarrow> string \<Rightarrow> nat \<Rightarrow> py_error + backtester" where
  "record_daily_value self asset n =
     (if length (daily_portfolio_values self) < n then
        (case assets_data self asset of
           None \<Rightarrow> Inl KeyError
         | Some st \<Rightarrow>
             Inr (self\<lparr>daily_portfolio_values :=
                    daily_portfolio_values self @ [total_value st]\<rparr>))
      else
        (case portfolio_history self asset of
           None \<Rightarrow> Inl KeyError
         | Some h \<Rightarrow>
             (let d = daily_portfolio_values self;
                  i = (if h = [] then length d - 1 else length h - 1)
              in if d = [] \<or> length d \<le> i then Inl IndexError
                 else
                   (case assets_data self asset of
                      None \<Rightarrow> Inl KeyError
                    | Some st \<Rightarrow>
                        Inr (self\<lparr>daily_portfolio_values :=
                               d[i := d ! i + total_value st]\<rparr>)))))"

text \<open>The inner loop: \<open>for date, row in data[asset].iterrows()\<close>.\<close>

fun backtest_rows :: "backtester \<Rightarrow> string \<Rightarrow> nat \<Rightarrow> row list \<Rightarrow> py_error + backtester" where
  "backtest_rows self asset n [] = Inr self"
| "backtest_rows self asset n (r # rs) =
     (case execute_trade self asset (signal r) (close r) of
        Inl e \<Rightarrow> Inl e
      | Inr self1 \<Rightarrow>
          (case update_portfolio self1 asset (close r) of
             Inl e \<Rightarrow> Inl e
           | Inr self2 \<Rightarrow>
               (case record_daily_value self2 asset n of
                  Inl e \<Rightarrow> Inl e
                | Inr self3 \<Rightarrow> backtest_rows self3 asset n rs)))"

text \<open>
  The outer loop: \<open>for asset in data\<close>, over the dict's items in insertion order;
  \<open>m\<close> is \<open>len(data)\<close>, which is at least 1 whenever the body runs. The body first
  stores the asset's dict, with its share of the capital, and its empty history
  (\<open>init_asset\<close>), then runs the inner loop.
\<close>

definition init_asset :: "backtester \<Rightarrow> nat \<Rightarrow> string \<Rightarrow> backtester" where
  "init_asset self m asset =
     self\<lparr>assets_data := (assets_data self)(asset \<mapsto>
            \<lparr>cash = initial_capital self / real m, positions = 0,
             position_value = 0, total_value = 0\<rparr>),
          portfolio_history := (portfolio_history self)(asset \<mapsto> [])\<rparr>"

fun backtest_assets :: "backtester \<Rightarrow> nat \<Rightarrow> (string \<times> row list) list \<Rightarrow> py_error + backtester" where
  "backtest_assets self m [] = Inr self"
| "backtest_assets self m ((asset, rows) # rest) =
     (case backtest_rows (init_asset self m asset) asset (length rows) rows of
        Inl e \<Rightarrow> Inl e
      | Inr self2 \<Rightarrow> backtest_assets self2 m rest)"

text \<open>
  The argument of \<open>backtest\<close>: one data frame, or a dict of data frames by asset name
  (its items in order; a dict has no key twice).
\<close>

datatype data = SingleAsset "row list" | MultiAsset "(string \<times> row list) list"

definition backtest :: "backtester \<Rightarrow> data \<Rightarrow> py_error + backtester" where
  "backtest self dt =
     (let d = (case dt of SingleAsset df \<Rightarrow> [(''SINGLE_ASSET'', df)] | MultiAsset d \<Rightarrow> d)
      in backtest_assets self (length d) d)"

section \<open>The backtester on numpy scalars\<close>



















section \<open>Auxiliary functions for the proofs\<close>

text \<open>
  What the executor and the accountant do to the dict of one asset, apart from the object
  that stores it, and the run of one asset over its series: its last state and its
  total values, one per row. The lemmas below connect them with the loops.
\<close>

definition trade :: "real \<Rightarrow> real \<Rightarrow> asset_state \<Rightarrow> int \<Rightarrow> real \<Rightarrow> py_error + asset_state" where
  "trade pct fixed st sig price =
     (if sig > 0 \<and> cash st > 0 then
        (if price = 0 then Inl ZeroDivisionError
         else Inr (st\<lparr>positions := positions st
                       + (cash st - max (cash st * pct) fixed) / price,
                     cash := 0\<rparr>))
      else if sig < 0 \<and> positions st > 0 then
        Inr (st\<lparr>cash := cash st
                  + (positions st * price - max (positions st * price * pct) fixed),
                positions := 0\<rparr>)
      else Inr st)"

definition revalue :: "asset_state \<Rightarrow> real \<Rightarrow> asset_state" where
  "revalue st price =
     st\<lparr>position_value := positions st * price,
        total_value := cash st + positions st * price\<rparr>"

fun asset_run :: "real \<Rightarrow> real \<Rightarrow> asset_state \<Rightarrow> row list \<Rightarrow> py_error + asset_state \<times> real list" where
  "asset_run pct fixed st [] = Inr (st, [])"
| "asset_run pct fixed st (r # rs) =
     (case trade pct fixed st (signal r) (close r) of
        Inl e \<Rightarrow> Inl e
      | Inr st1 \<Rightarrow>
          (case asset_run pct fixed (revalue st1 (close r)) rs of
             Inl e \<Rightarrow> Inl e
           | Inr (st', vs) \<Rightarrow> Inr (st', total_value (revalue st1 (close r)) # vs)))"

definition init_state :: "real \<Rightarrow> asset_state" where
  "init_state c = \<lparr>cash = c, positions = 0, position_value = 0, total_value = 0\<rparr>"

definition scale :: "real \<Rightarrow> asset_state \<Rightarrow> asset_state" where
  "scale k st =
     \<lparr>cash = k * cash st, positions = k * positions st,
      position_value = k * position_value st, total_value = k * total_value st\<rparr>"

text \<open>
  Whether the commission scales by the factor \<open>k\<close> at every trade of a run: at each
  record on which \<open>execute_trade\<close> buys or sells, the commission on \<open>k\<close> times the trade
  value is \<open>k\<close> times the commission on the trade value. The run is that of the
  executor followed by the accountant, record after record, on the asset of the object.
\<close>

fun commission_scales :: "real \<Rightarrow> backtester \<Rightarrow> string \<Rightarrow> row list \<Rightarrow> bool" where
  "commission_scales k self asset [] = True"
| "commission_scales k self asset (r # rs) =
     ((case assets_data self asset of
         None \<Rightarrow> True
       | Some st \<Rightarrow>
           (if signal r > 0 \<and> cash st > 0 then
              calculate_commission self (k * cash st)
                = k * calculate_commission self (cash st)
            else if signal r < 0 \<and> positions st > 0 then
              calculate_commission self (k * (positions st * close r))
                = k * calculate_commission self (positions st * close r)
            else True))
      \<and> (case execute_trade self asset (signal r) (close r) of
           Inl e \<Rightarrow> True
         | Inr self1 \<Rightarrow>
             (case update_portfolio self1 asset (close r) of
                Inl e \<Rightarrow> True
              | Inr self2 \<Rightarrow> commission_scales k self2 asset rs)))"

text \<open>The same condition on the dict of one asset.\<close>

definition step_scales :: "real \<Rightarrow> real \<Rightarrow> real \<Rightarrow> asset_state \<Rightarrow> int \<Rightarrow> real \<Rightarrow> bool" where
  "step_scales k pct fixed st sig price =
     (if sig > 0 \<and> cash st > 0 then
        max (k * cash st * pct) fixed = k * max (cash st * pct) fixed
      else if sig < 0 \<and> positions st > 0 then
        max (k * (positions st * price) * pct) fixed
          = k * max (positions st * price * pct) fixed
      else True)"

fun scales_along :: "real \<Rightarrow> real \<Rightarrow> real \<Rightarrow> asset_state \<Rightarrow> row list \<Rightarrow> bool" where
  "scales_along k pct fixed st [] = True"
| "scales_along k pct fixed st (r # rs) =
     (step_scales k pct fixed st (signal r) (close r)
      \<and> (case trade pct fixed st (signal r) (close r) of
           Inl e \<Rightarrow> True
         | Inr st1 \<Rightarrow> scales_along k pct fixed (revalue st1 (close r)) rs))"

text \<open>Adding the values \<open>vs\<close> in place to the entries of \<open>d\<close> from index \<open>k\<close> on.\<close>

fun add_from :: "nat \<Rightarrow> real list \<Rightarrow> real list \<Rightarrow> real list" where
  "add_from k [] d = d"
| "add_from k (v # vs) d = add_from (Suc k) vs (d[k := d ! k + v])"

section \<open>What the specification says, in its own words\<close>

text \<open>The maximum of the values up to and including step \<open>t\<close>.\<close>

definition running_max :: "real list \<Rightarrow> nat \<Rightarrow> real" where
  "running_max vs t = Max (set (take (Suc t) vs))"

text \<open>The minimum over all steps of value over running maximum, minus one.\<close>

definition min_drawdown :: "real list \<Rightarrow> real" where
  "min_drawdown vs = Min (set (map (\<lambda>t. vs ! t / running_max vs t - 1) [0..<length vs]))"

text \<open>
  The sample standard deviation by its textbook formula. Below two observations the
  formula has no value; the term is 0 there in HOL, and so never positive.
\<close>

definition sample_std :: "real list \<Rightarrow> real" where
  "sample_std xs =
     sqrt ((\<Sum>x\<leftarrow>xs. (x - sum_list xs / real (length xs))\<^sup>2) / (real (length xs) - 1))"

section \<open>Sample objects\<close>

text \<open>
  Backtesters with the default commission and one asset \<open>A\<close>: fully invested in five
  shares; holding 10000 in cash; holding less cash than the fixed commission; holding
  both cash and shares; holding shares worth less than the fixed commission.
\<close>

definition holding :: backtester where
  "holding = (Backtester 10000 (1/1000) 1)\<lparr>assets_data :=
      [''A'' \<mapsto> \<lparr>cash = 0, positions = 5, position_value = 500, total_value = 500\<rparr>],
      portfolio_history := [''A'' \<mapsto> [500]], daily_portfolio_values := [500]\<rparr>"

definition funded :: backtester where
  "funded = (Backtester 10000 (1/1000) 1)\<lparr>assets_data :=
      [''A'' \<mapsto> \<lparr>cash = 10000, positions = 0, position_value = 0, total_value = 0\<rparr>],
      portfolio_history := [''A'' \<mapsto> []]\<rparr>"

definition underfunded :: backtester where
  "underfunded = (Backtester (1/2) (1/1000) 1)\<lparr>assets_data :=
      [''A'' \<mapsto> \<lparr>cash = 1/2, positions = 0, position_value = 0, total_value = 0\<rparr>],
      portfolio_history := [''A'' \<mapsto> []]\<rparr>"

definition solvent :: backtester where
  "solvent = (Backtester 10000 (1/1000) 1)\<lparr>assets_data :=
      [''A'' \<mapsto> \<lparr>cash = 2000, positions = 3, position_value = 300, total_value = 2300\<rparr>],
      portfolio_history := [''A'' \<mapsto> [2300]], daily_portfolio_values := [2300]\<rparr>"

definition small_position :: backtester where
  "small_position = (Backtester 10000 (1/1000) 1)\<lparr>assets_data :=
      [''A'' \<mapsto> \<lparr>cash = 0, positions = 1/2, position_value = 1/2, total_value = 1/2\<rparr>],
      portfolio_history := [''A'' \<mapsto> [1/2]], daily_portfolio_values := [1/2]\<rparr>"

section \<open>The trade executor\<close>

text \<open>
  C5. A positive signal on an asset with cash, at a positive price, invests all of it:
  the shares held grow by the cash less the commission, over the price, where the
  commission is the larger of the percentage of the cash and the fixed fee; the cash is
  0 afterwards.
\<close>

theorem execute_trade_buy_invests_all_cash:
  assumes "assets_data self asset = Some st" and "cash st > 0" and "price > 0" and "sig > 0"
  shows "execute_trade self asset sig price =
     Inr (self\<lparr>assets_data := (assets_data self)(asset \<mapsto>
        st\<lparr>positions := positions st
              + (cash st - max (cash st * commission_pct self) (commission_fixed self)) / price,
           cash := 0\<rparr>)\<rparr>)"
  using assms by (simp add: execute_trade_def Let_def calculate_commission_def)

theorem execute_trade_buy_invests_all_cash_witness:
  "execute_trade funded ''A'' 1 100 =
     Inr (funded\<lparr>assets_data := [''A'' \<mapsto>
        \<lparr>cash = 0, positions = 999 / 10, position_value = 0, total_value = 0\<rparr>]\<rparr>)"
proof -
  have a: "assets_data funded ''A'' =
      Some \<lparr>cash = 10000, positions = 0, position_value = 0, total_value = 0\<rparr>"
    by (simp add: funded_def)
  have c: "cash \<lparr>cash = 10000, positions = 0, position_value = 0, total_value = 0\<rparr> > 0"
    by simp
  have p: "(100::real) > 0" and s: "(1::int) > 0" by simp_all
  from execute_trade_buy_invests_all_cash [OF a c p s] show ?thesis
    by (simp add: funded_def Backtester_def)
qed

text \<open>
  C1, as the specification states it, fails: a signal of 0 on an asset that holds
  shares sells nothing. The sell branch tests \<open>signal < 0\<close>.
\<close>

theorem zero_signal_keeps_position:
  "execute_trade holding ''A'' 0 100 = Inr holding
   \<and> map_option positions (assets_data holding ''A'') = Some 5"
  by (simp add: execute_trade_def Let_def holding_def)

text \<open>
  C1, amended. On an asset that holds shares, at a positive price, a strictly negative
  signal sells the whole position: the shares held become 0 and the cash grows by
  shares times price less the commission. A signal of 0 changes nothing.
\<close>

theorem execute_trade_sell_on_negative_signal:
  assumes "assets_data self asset = Some st" and "positions st > 0" and "price > 0"
  shows "(sig < 0 \<longrightarrow> execute_trade self asset sig price =
            Inr (self\<lparr>assets_data := (assets_data self)(asset \<mapsto>
              st\<lparr>cash := cash st + (positions st * price
                       - calculate_commission self (positions st * price)),
                 positions := 0\<rparr>)\<rparr>))
       \<and> (sig = 0 \<longrightarrow> execute_trade self asset sig price = Inr self)"
  using assms by (simp add: execute_trade_def Let_def)

theorem execute_trade_sell_on_negative_signal_witness:
  "execute_trade holding ''A'' (- 1) 100 =
     Inr (holding\<lparr>assets_data := [''A'' \<mapsto>
        \<lparr>cash = 499, positions = 0, position_value = 500, total_value = 500\<rparr>]\<rparr>)
   \<and> execute_trade holding ''A'' 0 100 = Inr holding"
proof -
  have a: "assets_data holding ''A'' =
      Some \<lparr>cash = 0, positions = 5, position_value = 500, total_value = 500\<rparr>"
    by (simp add: holding_def)
  have p: "positions \<lparr>cash = 0, positions = 5, position_value = 500, total_value = 500\<rparr> > 0"
    by simp
  have q: "(100::real) > 0" by simp
  from execute_trade_sell_on_negative_signal [OF a p q, of "- 1"]
    execute_trade_sell_on_negative_signal [OF a p q, of 0]
  show ?thesis
    by (simp add: holding_def Backtester_def calculate_commission_def)
qed

text \<open>
  C6, as the specification states it, fails: with half a unit of cash and the default
  fixed commission of 1, a buy at price 1 leaves a negative number of shares.
\<close>

theorem buy_below_commission_goes_short:
  "execute_trade underfunded ''A'' 1 1 =
     Inr (underfunded\<lparr>assets_data := [''A'' \<mapsto>
        \<lparr>cash = 0, positions = - (1 / 2), position_value = 0, total_value = 0\<rparr>]\<rparr>)"
  by (simp add: execute_trade_def Let_def underfunded_def Backtester_def
      calculate_commission_def)

text \<open>
  C6, amended. From a state with non-negative cash and shares, at a positive price, the
  state after a trade has non-negative cash and shares if and only if the commission
  charged on the trade is at most the asset's cash plus the value of its shares at that
  price. A buy is charged on the cash and leaves the cash at 0; a sale is charged on
  shares times price and leaves 0 shares; no trade, no charge. So a larger commission
  leaves a negative number of shares after a buy and a negative cash after a sale.
\<close>

theorem execute_trade_keeps_nonnegative:
  assumes "assets_data self asset = Some st"
    and "0 \<le> cash st" and "0 \<le> positions st" and "0 < price"
  shows "\<exists>self' st'. execute_trade self asset sig price = Inr self'
           \<and> assets_data self' asset = Some st'
           \<and> ((0 \<le> cash st' \<and> 0 \<le> positions st') \<longleftrightarrow>
                (0 < sig \<and> 0 < cash st \<longrightarrow>
                   calculate_commission self (cash st) \<le> cash st + positions st * price)
              \<and> (sig < 0 \<and> 0 < positions st \<longrightarrow>
                   calculate_commission self (positions st * price)
                     \<le> cash st + positions st * price))
           \<and> (0 < sig \<and> 0 < cash st \<longrightarrow> cash st' = 0)
           \<and> (sig < 0 \<and> 0 < positions st \<longrightarrow> positions st' = 0)"
proof -
  let ?bound = "cash st + positions st * price"
  let ?cond = "(0 < sig \<and> 0 < cash st \<longrightarrow> calculate_commission self (cash st) \<le> ?bound)
      \<and> (sig < 0 \<and> 0 < positions st \<longrightarrow>
           calculate_commission self (positions st * price) \<le> ?bound)"
  consider (buy) "0 < sig" "0 < cash st" | (sell) "sig < 0" "0 < positions st"
    | (idle) "\<not> (0 < sig \<and> 0 < cash st)" "\<not> (sig < 0 \<and> 0 < positions st)"
    by blast
  then show ?thesis
  proof cases
    case buy
    let ?c = "calculate_commission self (cash st)"
    let ?st' = "st\<lparr>positions := positions st + (cash st - ?c) / price,
                   cash := cash st - cash st\<rparr>"
    let ?s' = "self\<lparr>assets_data := (assets_data self)(asset \<mapsto> ?st')\<rparr>"
    have run: "execute_trade self asset sig price = Inr ?s'"
      using buy assms(1,4) by (simp add: execute_trade_def Let_def)
    have stored: "assets_data ?s' asset = Some ?st'" by simp
    have "(- positions st \<le> (cash st - ?c) / price)
        \<longleftrightarrow> (- positions st * price \<le> cash st - ?c)"
      using assms(4) by (simp add: pos_le_divide_eq)
    then have "(0 \<le> positions st + (cash st - ?c) / price) \<longleftrightarrow> (?c \<le> ?bound)"
      by auto
    with buy have iff: "(0 \<le> cash ?st' \<and> 0 \<le> positions ?st') \<longleftrightarrow> ?cond"
      by simp
    have b: "0 < sig \<and> 0 < cash st \<longrightarrow> cash ?st' = 0" by simp
    have s: "sig < 0 \<and> 0 < positions st \<longrightarrow> positions ?st' = 0" using buy by simp
    from run stored iff b s show ?thesis by blast
  next
    case sell
    let ?c = "calculate_commission self (positions st * price)"
    let ?st' = "st\<lparr>cash := cash st + (positions st * price - ?c), positions := 0\<rparr>"
    let ?s' = "self\<lparr>assets_data := (assets_data self)(asset \<mapsto> ?st')\<rparr>"
    have run: "execute_trade self asset sig price = Inr ?s'"
      using sell assms(1) by (simp add: execute_trade_def Let_def)
    have stored: "assets_data ?s' asset = Some ?st'" by simp
    have "(0 \<le> cash st + (positions st * price - ?c)) \<longleftrightarrow> (?c \<le> ?bound)"
      by auto
    with sell have iff: "(0 \<le> cash ?st' \<and> 0 \<le> positions ?st') \<longleftrightarrow> ?cond"
      by simp
    have b: "0 < sig \<and> 0 < cash st \<longrightarrow> cash ?st' = 0" using sell by simp
    have s: "sig < 0 \<and> 0 < positions st \<longrightarrow> positions ?st' = 0" by simp
    from run stored iff b s show ?thesis by blast
  next
    case idle
    have run: "execute_trade self asset sig price = Inr self"
      using idle assms(1) by (auto simp add: execute_trade_def Let_def)
    have iff: "(0 \<le> cash st \<and> 0 \<le> positions st) \<longleftrightarrow> ?cond"
      using idle assms(2,3) by blast
    have b: "0 < sig \<and> 0 < cash st \<longrightarrow> cash st = 0" using idle by simp
    have s: "sig < 0 \<and> 0 < positions st \<longrightarrow> positions st = 0" using idle by simp
    from run assms(1) iff b s show ?thesis by blast
  qed
qed

theorem execute_trade_keeps_nonnegative_witness:
  "(\<exists>self' st'. execute_trade solvent ''A'' (- 1) 100 = Inr self'
      \<and> assets_data self' ''A'' = Some st' \<and> 0 \<le> cash st' \<and> 0 \<le> positions st')
   \<and> (\<exists>self' st'. execute_trade underfunded ''A'' 1 1 = Inr self'
      \<and> assets_data self' ''A'' = Some st' \<and> cash st' = 0 \<and> positions st' < 0)
   \<and> (\<exists>self' st'. execute_trade small_position ''A'' (- 1) 1 = Inr self'
      \<and> assets_data self' ''A'' = Some st' \<and> positions st' = 0 \<and> cash st' < 0)"
proof -
  let ?st = "\<lparr>cash = 2000, positions = 3, position_value = 300, total_value = 2300\<rparr>"
  have a: "assets_data solvent ''A'' = Some ?st"
    by (simp add: solvent_def)
  have b: "0 \<le> cash ?st" and c: "0 \<le> positions ?st" and p: "(0::real) < 100"
    by simp_all
  have cs: "calculate_commission solvent (positions ?st * 100) \<le> cash ?st + positions ?st * 100"
    by (simp add: calculate_commission_def solvent_def Backtester_def)
  from execute_trade_keeps_nonnegative [OF a b c p, of "- 1"] cs
  have one: "\<exists>self' st'. execute_trade solvent ''A'' (- 1) 100 = Inr self'
      \<and> assets_data self' ''A'' = Some st' \<and> 0 \<le> cash st' \<and> 0 \<le> positions st'"
    by auto
  let ?ut = "\<lparr>cash = 1 / 2, positions = 0, position_value = 0, total_value = 0\<rparr>"
  have a': "assets_data underfunded ''A'' = Some ?ut"
    by (simp add: underfunded_def)
  have b': "0 \<le> cash ?ut" and c': "0 \<le> positions ?ut" and p': "(0::real) < 1"
    by simp_all
  have cu: "\<not> calculate_commission underfunded (cash ?ut) \<le> cash ?ut + positions ?ut * 1"
    by (simp add: calculate_commission_def underfunded_def Backtester_def)
  from execute_trade_keeps_nonnegative [OF a' b' c' p', of 1] obtain s1 t1 where
    r1: "execute_trade underfunded ''A'' 1 1 = Inr s1" "assets_data s1 ''A'' = Some t1"
    and i1: "(0 \<le> cash t1 \<and> 0 \<le> positions t1) \<longleftrightarrow>
        (0 < (1::int) \<and> 0 < cash ?ut \<longrightarrow>
           calculate_commission underfunded (cash ?ut) \<le> cash ?ut + positions ?ut * 1)
      \<and> ((1::int) < 0 \<and> 0 < positions ?ut \<longrightarrow>
           calculate_commission underfunded (positions ?ut * 1)
             \<le> cash ?ut + positions ?ut * 1)"
    and z1: "0 < (1::int) \<and> 0 < cash ?ut \<longrightarrow> cash t1 = 0"
    by blast
  from z1 have "cash t1 = 0" by simp
  moreover from i1 cu have "\<not> (0 \<le> cash t1 \<and> 0 \<le> positions t1)" by simp
  ultimately have "positions t1 < 0" by simp
  with r1 \<open>cash t1 = 0\<close> have two: "\<exists>self' st'. execute_trade underfunded ''A'' 1 1 = Inr self'
      \<and> assets_data self' ''A'' = Some st' \<and> cash st' = 0 \<and> positions st' < 0"
    by blast
  let ?pt = "\<lparr>cash = 0, positions = 1 / 2, position_value = 1 / 2, total_value = 1 / 2\<rparr>"
  have a'': "assets_data small_position ''A'' = Some ?pt"
    by (simp add: small_position_def)
  have b'': "0 \<le> cash ?pt" and c'': "0 \<le> positions ?pt"
    by simp_all
  have cp: "\<not> calculate_commission small_position (positions ?pt * 1)
      \<le> cash ?pt + positions ?pt * 1"
    by (simp add: calculate_commission_def small_position_def Backtester_def)
  from execute_trade_keeps_nonnegative [OF a'' b'' c'' p', of "- 1"] obtain s2 t2 where
    r2: "execute_trade small_position ''A'' (- 1) 1 = Inr s2" "assets_data s2 ''A'' = Some t2"
    and i2: "(0 \<le> cash t2 \<and> 0 \<le> positions t2) \<longleftrightarrow>
        (0 < (- 1::int) \<and> 0 < cash ?pt \<longrightarrow>
           calculate_commission small_position (cash ?pt) \<le> cash ?pt + positions ?pt * 1)
      \<and> ((- 1::int) < 0 \<and> 0 < positions ?pt \<longrightarrow>
           calculate_commission small_position (positions ?pt * 1)
             \<le> cash ?pt + positions ?pt * 1)"
    and z2: "(- 1::int) < 0 \<and> 0 < positions ?pt \<longrightarrow> positions t2 = 0"
    by blast
  from z2 have "positions t2 = 0" by simp
  moreover from i2 cp have "\<not> (0 \<le> cash t2 \<and> 0 \<le> positions t2)" by simp
  ultimately have "cash t2 < 0" by simp
  with r2 \<open>positions t2 = 0\<close> have three:
    "\<exists>self' st'. execute_trade small_position ''A'' (- 1) 1 = Inr self'
      \<and> assets_data self' ''A'' = Some st' \<and> positions st' = 0 \<and> cash st' < 0"
    by blast
  from one two three show ?thesis by (intro conjI)
qed

section \<open>The loops of the driver\<close>

lemma execute_trade_trade:
  assumes "assets_data self a = Some st"
  shows "execute_trade self a sig p =
     (case trade (commission_pct self) (commission_fixed self) st sig p of
        Inl e \<Rightarrow> Inl e
      | Inr st' \<Rightarrow> Inr (self\<lparr>assets_data := (assets_data self)(a \<mapsto> st')\<rparr>))"
proof -
  have triv: "self\<lparr>assets_data := (assets_data self)(a \<mapsto> st)\<rparr> = self"
    using assms by (simp add: map_upd_triv)
  show ?thesis
    using assms triv
    by (simp add: execute_trade_def trade_def Let_def calculate_commission_def)
qed

lemma update_portfolio_revalue:
  assumes "assets_data self a = Some st" and "portfolio_history self a = Some h"
  shows "update_portfolio self a p =
     Inr (self\<lparr>assets_data := (assets_data self)(a \<mapsto> revalue st p),
              portfolio_history :=
                (portfolio_history self)(a \<mapsto> h @ [total_value (revalue st p)])\<rparr>)"
  using assms by (simp add: update_portfolio_def revalue_def Let_def)

lemma record_daily_value_append:
  assumes "assets_data self a = Some st" and "length (daily_portfolio_values self) < n"
  shows "record_daily_value self a n =
     Inr (self\<lparr>daily_portfolio_values := daily_portfolio_values self @ [total_value st]\<rparr>)"
  using assms by (simp add: record_daily_value_def)

lemma record_daily_value_add:
  assumes "assets_data self a = Some st" and "portfolio_history self a = Some (h @ [v])"
    and "n \<le> length (daily_portfolio_values self)"
    and "length h < length (daily_portfolio_values self)"
  shows "record_daily_value self a n =
     Inr (self\<lparr>daily_portfolio_values :=
        (daily_portfolio_values self)[length h :=
           daily_portfolio_values self ! length h + total_value st]\<rparr>)"
  using assms by (auto simp add: record_daily_value_def Let_def)

text \<open>One turn of the inner loop, in each of the two regimes.\<close>

lemma backtest_rows_append:
  assumes "assets_data self a = Some st" and "portfolio_history self a = Some h"
    and "length (daily_portfolio_values self) + length rows \<le> n"
  shows "backtest_rows self a n rows =
     (case asset_run (commission_pct self) (commission_fixed self) st rows of
        Inl e \<Rightarrow> Inl e
      | Inr (st', vs) \<Rightarrow>
          Inr (self\<lparr>assets_data := (assets_data self)(a \<mapsto> st'),
                   portfolio_history := (portfolio_history self)(a \<mapsto> h @ vs),
                   daily_portfolio_values := daily_portfolio_values self @ vs\<rparr>))"
  using assms
proof (induction rows arbitrary: self st h)
  case Nil
  then have "self\<lparr>assets_data := (assets_data self)(a \<mapsto> st),
                  portfolio_history := (portfolio_history self)(a \<mapsto> h)\<rparr> = self"
    by (simp add: map_upd_triv)
  then show ?case by simp
next
  case (Cons r rs)
  let ?pct = "commission_pct self" and ?fx = "commission_fixed self"
  show ?case
  proof (cases "trade ?pct ?fx st (signal r) (close r)")
    case (Inl e)
    then show ?thesis
      using Cons.prems(1) by (simp add: execute_trade_trade)
  next
    case (Inr st1)
    let ?st2 = "revalue st1 (close r)"
    let ?tv = "total_value ?st2"
    let ?s1 = "self\<lparr>assets_data := (assets_data self)(a \<mapsto> st1)\<rparr>"
    let ?s2 = "?s1\<lparr>assets_data := (assets_data ?s1)(a \<mapsto> ?st2),
                  portfolio_history := (portfolio_history ?s1)(a \<mapsto> h @ [?tv])\<rparr>"
    let ?s3 = "?s2\<lparr>daily_portfolio_values := daily_portfolio_values ?s2 @ [?tv]\<rparr>"
    have e: "execute_trade self a (signal r) (close r) = Inr ?s1"
      using Cons.prems(1) Inr by (simp add: execute_trade_trade)
    have u: "update_portfolio ?s1 a (close r) = Inr ?s2"
      using Cons.prems(2) by (subst update_portfolio_revalue [where st = st1 and h = h]) simp_all
    have d: "record_daily_value ?s2 a n = Inr ?s3"
      using Cons.prems(3) by (subst record_daily_value_append [where st = ?st2]) simp_all
    have step: "backtest_rows self a n (r # rs) = backtest_rows ?s3 a n rs"
      by (simp only: backtest_rows.simps e u d sum.case)
    have ih: "backtest_rows ?s3 a n rs =
       (case asset_run (commission_pct ?s3) (commission_fixed ?s3) ?st2 rs of
          Inl e \<Rightarrow> Inl e
        | Inr (st', vs) \<Rightarrow>
            Inr (?s3\<lparr>assets_data := (assets_data ?s3)(a \<mapsto> st'),
                     portfolio_history := (portfolio_history ?s3)(a \<mapsto> (h @ [?tv]) @ vs),
                     daily_portfolio_values := daily_portfolio_values ?s3 @ vs\<rparr>))"
      using Cons.prems(3) by (intro Cons.IH) simp_all
    show ?thesis
    proof (cases "asset_run ?pct ?fx ?st2 rs")
      case bad: (Inl e)
      with Inr show ?thesis unfolding step ih by simp
    next
      case good: (Inr res)
      obtain st' vs where "res = (st', vs)" by (cases res)
      with Inr good show ?thesis unfolding step ih by simp
    qed
  qed
qed

lemma backtest_rows_add:
  assumes "assets_data self a = Some st" and "portfolio_history self a = Some h"
    and "n \<le> length (daily_portfolio_values self)"
    and "length h + length rows \<le> length (daily_portfolio_values self)"
  shows "backtest_rows self a n rows =
     (case asset_run (commission_pct self) (commission_fixed self) st rows of
        Inl e \<Rightarrow> Inl e
      | Inr (st', vs) \<Rightarrow>
          Inr (self\<lparr>assets_data := (assets_data self)(a \<mapsto> st'),
                   portfolio_history := (portfolio_history self)(a \<mapsto> h @ vs),
                   daily_portfolio_values :=
                     add_from (length h) vs (daily_portfolio_values self)\<rparr>))"
  using assms
proof (induction rows arbitrary: self st h)
  case Nil
  then have "self\<lparr>assets_data := (assets_data self)(a \<mapsto> st),
                  portfolio_history := (portfolio_history self)(a \<mapsto> h)\<rparr> = self"
    by (simp add: map_upd_triv)
  then show ?case by simp
next
  case (Cons r rs)
  let ?pct = "commission_pct self" and ?fx = "commission_fixed self"
  let ?d = "daily_portfolio_values self"
  show ?case
  proof (cases "trade ?pct ?fx st (signal r) (close r)")
    case (Inl e)
    then show ?thesis
      using Cons.prems(1) by (simp add: execute_trade_trade)
  next
    case (Inr st1)
    let ?st2 = "revalue st1 (close r)"
    let ?tv = "total_value ?st2"
    let ?s1 = "self\<lparr>assets_data := (assets_data self)(a \<mapsto> st1)\<rparr>"
    let ?s2 = "?s1\<lparr>assets_data := (assets_data ?s1)(a \<mapsto> ?st2),
                  portfolio_history := (portfolio_history ?s1)(a \<mapsto> h @ [?tv])\<rparr>"
    let ?s3 = "?s2\<lparr>daily_portfolio_values := ?d[length h := ?d ! length h + ?tv]\<rparr>"
    have e: "execute_trade self a (signal r) (close r) = Inr ?s1"
      using Cons.prems(1) Inr by (simp add: execute_trade_trade)
    have u: "update_portfolio ?s1 a (close r) = Inr ?s2"
      using Cons.prems(2) by (subst update_portfolio_revalue [where st = st1 and h = h]) simp_all
    have d: "record_daily_value ?s2 a n = Inr ?s3"
      using Cons.prems(3,4)
      by (subst record_daily_value_add [where st = ?st2 and h = h and v = ?tv]) simp_all
    have step: "backtest_rows self a n (r # rs) = backtest_rows ?s3 a n rs"
      by (simp only: backtest_rows.simps e u d sum.case)
    have ih: "backtest_rows ?s3 a n rs =
       (case asset_run (commission_pct ?s3) (commission_fixed ?s3) ?st2 rs of
          Inl e \<Rightarrow> Inl e
        | Inr (st', vs) \<Rightarrow>
            Inr (?s3\<lparr>assets_data := (assets_data ?s3)(a \<mapsto> st'),
                     portfolio_history := (portfolio_history ?s3)(a \<mapsto> (h @ [?tv]) @ vs),
                     daily_portfolio_values :=
                       add_from (length (h @ [?tv])) vs (daily_portfolio_values ?s3)\<rparr>))"
      using Cons.prems(3,4) by (intro Cons.IH) simp_all
    show ?thesis
    proof (cases "asset_run ?pct ?fx ?st2 rs")
      case bad: (Inl e)
      with Inr show ?thesis unfolding step ih by simp
    next
      case good: (Inr res)
      obtain st' vs where "res = (st', vs)" by (cases res)
      with Inr good show ?thesis unfolding step ih by simp
    qed
  qed
qed

lemma add_from_eq:
  "length d = k + length vs \<Longrightarrow> add_from k vs d = take k d @ map2 (+) (drop k d) vs"
proof (induction vs arbitrary: k d)
  case Nil
  then show ?case by simp
next
  case (Cons v vs)
  let ?d' = "d[k := d ! k + v]"
  from Cons.prems have k: "k < length d" by simp
  have "add_from k (v # vs) d = add_from (Suc k) vs ?d'" by simp
  also have "\<dots> = take (Suc k) ?d' @ map2 (+) (drop (Suc k) ?d') vs"
    using Cons.prems by (intro Cons.IH) simp
  also have "take (Suc k) ?d' = take k d @ [d ! k + v]"
    using k by (simp add: take_Suc_conv_app_nth)
  also have "drop (Suc k) ?d' = drop (Suc k) d" by simp
  finally show ?case
    using k by (simp add: Cons_nth_drop_Suc [symmetric])
qed

lemma asset_run_length:
  "asset_run pct fixed st rows = Inr (st', vs) \<Longrightarrow> length vs = length rows"
  by (induction rows arbitrary: st st' vs) (auto split: sum.splits prod.splits)

lemma init_asset_simps:
  "assets_data (init_asset self m a) a = Some (init_state (initial_capital self / real m))"
  "portfolio_history (init_asset self m a) a = Some []"
  "daily_portfolio_values (init_asset self m a) = daily_portfolio_values self"
  "commission_pct (init_asset self m a) = commission_pct self"
  "commission_fixed (init_asset self m a) = commission_fixed self"
  "initial_capital (init_asset self m a) = initial_capital self"
  by (simp_all add: init_asset_def init_state_def)

lemma asset_run_flat:
  "positions st = 0 \<Longrightarrow> \<forall>r\<in>set rows. signal r \<le> 0 \<Longrightarrow>
   \<exists>st'. asset_run pct fixed st rows = Inr (st', replicate (length rows) (cash st))
      \<and> positions st' = 0 \<and> cash st' = cash st"
proof (induction rows arbitrary: st)
  case Nil
  then show ?case by simp
next
  case (Cons r rs)
  from Cons.prems have t: "trade pct fixed st (signal r) (close r) = Inr st"
    by (simp add: trade_def)
  let ?st2 = "revalue st (close r)"
  have p: "positions ?st2 = 0" and c: "cash ?st2 = cash st" and v: "total_value ?st2 = cash st"
    using Cons.prems(1) by (simp_all add: revalue_def)
  from Cons.IH [OF p] Cons.prems(2) obtain st' where
    "asset_run pct fixed ?st2 rs = Inr (st', replicate (length rs) (cash ?st2))"
    "positions st' = 0" "cash st' = cash ?st2"
    by auto
  with t c v show ?case by simp
qed

text \<open>
  C9. On a single asset whose signals are all non-positive, whatever the prices, a fresh
  backtester never trades: after each row of the series the asset holds 0 shares, and
  every entry of the daily portfolio values is the initial capital itself.
\<close>

theorem backtest_flat_signals_keep_capital:
  assumes "\<forall>r\<in>set rows. signal r \<le> 0"
  shows "(\<exists>s st. backtest (Backtester c pct fixed) (SingleAsset rows) = Inr s
            \<and> daily_portfolio_values s = replicate (length rows) c
            \<and> assets_data s ''SINGLE_ASSET'' = Some st \<and> positions st = 0)
       \<and> (\<forall>k\<le>length rows. \<exists>s st.
            backtest_rows (init_asset (Backtester c pct fixed) 1 ''SINGLE_ASSET'')
              ''SINGLE_ASSET'' (length rows) (take k rows) = Inr s
            \<and> daily_portfolio_values s = replicate k c
            \<and> assets_data s ''SINGLE_ASSET'' = Some st \<and> positions st = 0)"
proof -
  let ?B = "Backtester c pct fixed"
  let ?a = "''SINGLE_ASSET''"
  let ?s0 = "init_asset ?B 1 ?a"
  have steps: "\<exists>s st. backtest_rows ?s0 ?a (length rows) (take k rows) = Inr s
      \<and> daily_portfolio_values s = replicate k c
      \<and> assets_data s ?a = Some st \<and> positions st = 0" if k: "k \<le> length rows" for k
  proof -
    have flat: "\<forall>r\<in>set (take k rows). signal r \<le> 0"
      using assms by (meson in_set_takeD)
    have "positions (init_state c) = 0" by (simp add: init_state_def)
    from asset_run_flat [OF this flat, of pct fixed] obtain st' where
      run: "asset_run pct fixed (init_state c) (take k rows)
              = Inr (st', replicate (length (take k rows)) (cash (init_state c)))"
      and pos: "positions st' = 0"
      by blast
    have a: "assets_data ?s0 ?a = Some (init_state c)"
      using init_asset_simps(1) [of ?B 1 ?a] by (simp add: Backtester_def)
    have h: "portfolio_history ?s0 ?a = Some []" by (rule init_asset_simps(2))
    have d: "daily_portfolio_values ?s0 = []"
      by (simp add: init_asset_simps Backtester_def)
    have len: "length (daily_portfolio_values ?s0) + length (take k rows) \<le> length rows"
      using k d by simp
    have pf: "commission_pct ?s0 = pct" "commission_fixed ?s0 = fixed"
      by (simp_all add: init_asset_simps Backtester_def)
    have lt: "length (take k rows) = k" using k by simp
    have "backtest_rows ?s0 ?a (length rows) (take k rows) =
        Inr (?s0\<lparr>assets_data := (assets_data ?s0)(?a \<mapsto> st'),
                 portfolio_history := (portfolio_history ?s0)(?a \<mapsto> [] @ replicate k c),
                 daily_portfolio_values := daily_portfolio_values ?s0 @ replicate k c\<rparr>)"
      unfolding backtest_rows_append [OF a h len] pf run lt
      by (simp add: init_state_def)
    with pos d show ?thesis by simp
  qed
  have "backtest ?B (SingleAsset rows) = backtest_rows ?s0 ?a (length rows) (take (length rows) rows)"
    by (simp add: backtest_def split: sum.splits)
  with steps [of "length rows"] steps show ?thesis by simp
qed

theorem backtest_flat_signals_keep_capital_witness:
  "map_sum id daily_portfolio_values
     (backtest (Backtester 10000 (1 / 1000) 1)
        (SingleAsset [\<lparr>close = 100, signal = 0\<rparr>, \<lparr>close = 110, signal = - 1\<rparr>]))
   = Inr [10000, 10000]"
proof -
  have "\<forall>r\<in>set [\<lparr>close = 100, signal = 0\<rparr>, \<lparr>close = 110, signal = - 1\<rparr>].
      signal r \<le> 0"
    by simp
  from backtest_flat_signals_keep_capital [OF this, of 10000 "1 / 1000" 1]
  obtain s where
    "backtest (Backtester 10000 (1 / 1000) 1)
       (SingleAsset [\<lparr>close = 100, signal = 0\<rparr>, \<lparr>close = 110, signal = - 1\<rparr>]) = Inr s"
    "daily_portfolio_values s
       = replicate (length [\<lparr>close = 100, signal = 0\<rparr>, \<lparr>close = 110, signal = - 1\<rparr>])
           10000"
    by blast
  then show ?thesis by (simp add: numeral_2_eq_2)
qed

text \<open>
  C4, as the specification states it, fails under the default commission: with a capital
  of 1000, the fixed fee of 1 is charged once on one asset and once on each of two, so
  the two halves are worth 998 together where the whole is worth 999.
\<close>

theorem split_capital_pays_fixed_fee_twice:
  "map_sum id daily_portfolio_values
     (backtest (Backtester 1000 (1 / 1000) 1)
        (MultiAsset [(''A'', [\<lparr>close = 1, signal = 1\<rparr>]),
                     (''B'', [\<lparr>close = 1, signal = 1\<rparr>])])) = Inr [998]
   \<and> map_sum id daily_portfolio_values
     (backtest (Backtester 1000 (1 / 1000) 1)
        (SingleAsset [\<lparr>close = 1, signal = 1\<rparr>])) = Inr [999]"
  by (simp add: backtest_def Backtester_def init_asset_def execute_trade_def Let_def
      calculate_commission_def update_portfolio_def record_daily_value_def)

lemma revalue_scale: "revalue (scale k st) p = scale k (revalue st p)"
  by (simp add: revalue_def scale_def algebra_simps)

lemma trade_scale:
  assumes "0 < k" and "step_scales k pct fixed st sig p"
  shows "trade pct fixed (scale k st) sig p = map_sum id (scale k) (trade pct fixed st sig p)"
proof -
  have c: "0 < k * cash st \<longleftrightarrow> 0 < cash st" and q: "0 < k * positions st \<longleftrightarrow> 0 < positions st"
    using assms(1) by (simp_all add: zero_less_mult_iff)
  have lin: "k * x + (k * y - k * z) / p = k * (x + (y - z) / p)" for x y z :: real
    by (simp add: algebra_simps diff_divide_distrib)
  consider (buy) "0 < sig" "0 < cash st" | (sell) "sig < 0" "0 < positions st"
    | (idle) "\<not> (0 < sig \<and> 0 < cash st)" "\<not> (sig < 0 \<and> 0 < positions st)"
    by blast
  then show ?thesis
  proof cases
    case buy
    with assms(2) have m: "max (k * cash st * pct) fixed = k * max (cash st * pct) fixed"
      by (simp add: step_scales_def)
    have "k * positions st + (k * cash st - max (k * cash st * pct) fixed) / p
        = k * (positions st + (cash st - max (cash st * pct) fixed) / p)"
      unfolding m by (rule lin)
    with buy show ?thesis
      by (simp add: trade_def scale_def c q)
  next
    case sell
    with assms(2) have
      "max (k * (positions st * p) * pct) fixed = k * max (positions st * p * pct) fixed"
      by (simp add: step_scales_def)
    then have m: "max (k * positions st * p * pct) fixed = k * max (positions st * p * pct) fixed"
      by (simp add: mult.assoc)
    have "k * cash st + (k * positions st * p - max (k * positions st * p * pct) fixed)
        = k * (cash st + (positions st * p - max (positions st * p * pct) fixed))"
      unfolding m by (simp only: distrib_left right_diff_distrib mult.assoc)
    with sell show ?thesis
      by (simp add: trade_def scale_def c q)
  next
    case idle
    then show ?thesis
      by (auto simp add: trade_def scale_def c q)
  qed
qed

lemma asset_run_scale:
  assumes "0 < k"
  shows "scales_along k pct fixed st rows \<Longrightarrow>
     asset_run pct fixed (scale k st) rows =
       map_sum id (\<lambda>(st', vs). (scale k st', map ((*) k) vs)) (asset_run pct fixed st rows)"
proof (induction rows arbitrary: st)
  case Nil
  then show ?case by simp
next
  case (Cons r rs)
  from Cons.prems have step: "step_scales k pct fixed st (signal r) (close r)" by simp
  note ts = trade_scale [OF assms step]
  show ?case
  proof (cases "trade pct fixed st (signal r) (close r)")
    case (Inl e)
    then show ?thesis by (simp add: ts)
  next
    case (Inr st1)
    with Cons.prems have rest: "scales_along k pct fixed (revalue st1 (close r)) rs" by simp
    have tv: "total_value (scale k (revalue st1 (close r))) = k * total_value (revalue st1 (close r))"
      by (simp add: scale_def)
    show ?thesis
    proof (cases "asset_run pct fixed (revalue st1 (close r)) rs")
      case bad: (Inl e)
      with Inr show ?thesis
        by (simp add: ts revalue_scale Cons.IH [OF rest])
    next
      case good: (Inr res)
      obtain st' vs where "res = (st', vs)" by (cases res)
      with Inr good show ?thesis
        by (simp add: ts revalue_scale Cons.IH [OF rest] tv)
    qed
  qed
qed

lemma scales_along_one: "scales_along 1 pct fixed st rows"
  by (induction rows arbitrary: st) (auto simp add: step_scales_def split: sum.splits)

lemma scales_along_no_fixed: "0 < k \<Longrightarrow> scales_along k pct 0 st rows"
proof (induction rows arbitrary: st)
  case Nil
  then show ?case by simp
next
  case (Cons r rs)
  have "max (k * x * pct) 0 = k * max (x * pct) 0" for x :: real
    using max_mult_distrib_left [of k "x * pct" 0] Cons.prems by (simp add: mult.assoc)
  then have "step_scales k pct 0 st (signal r) (close r)"
    by (simp add: step_scales_def)
  with Cons show ?case by (simp split: sum.splits)
qed

lemma commission_scales_along:
  assumes "assets_data self a = Some st" and "portfolio_history self a = Some h"
  shows "commission_scales k self a rows
       = scales_along k (commission_pct self) (commission_fixed self) st rows"
  using assms
proof (induction rows arbitrary: self st h)
  case Nil
  then show ?case by simp
next
  case (Cons r rs)
  let ?pct = "commission_pct self" and ?fx = "commission_fixed self"
  have head: "(case assets_data self a of
         None \<Rightarrow> True
       | Some st \<Rightarrow>
           (if signal r > 0 \<and> cash st > 0 then
              calculate_commission self (k * cash st)
                = k * calculate_commission self (cash st)
            else if signal r < 0 \<and> positions st > 0 then
              calculate_commission self (k * (positions st * close r))
                = k * calculate_commission self (positions st * close r)
            else True))
      = step_scales k ?pct ?fx st (signal r) (close r)"
    using Cons.prems(1) by (simp add: step_scales_def calculate_commission_def)
  show ?case
  proof (cases "trade ?pct ?fx st (signal r) (close r)")
    case (Inl e)
    then have "execute_trade self a (signal r) (close r) = Inl e"
      using Cons.prems(1) by (simp add: execute_trade_trade)
    with Inl show ?thesis
      unfolding commission_scales.simps scales_along.simps head by simp
  next
    case (Inr st1)
    let ?s1 = "self\<lparr>assets_data := (assets_data self)(a \<mapsto> st1)\<rparr>"
    let ?st2 = "revalue st1 (close r)"
    let ?s2 = "?s1\<lparr>assets_data := (assets_data ?s1)(a \<mapsto> ?st2),
                  portfolio_history :=
                    (portfolio_history ?s1)(a \<mapsto> h @ [total_value ?st2])\<rparr>"
    have e: "execute_trade self a (signal r) (close r) = Inr ?s1"
      using Cons.prems(1) Inr by (simp add: execute_trade_trade)
    have u: "update_portfolio ?s1 a (close r) = Inr ?s2"
      using Cons.prems(2) by (subst update_portfolio_revalue [where st = st1 and h = h]) simp_all
    have "commission_scales k ?s2 a rs
        = scales_along k (commission_pct ?s2) (commission_fixed ?s2) ?st2 rs"
      by (rule Cons.IH [where h = "h @ [total_value ?st2]"]) simp_all
    then have ih: "commission_scales k ?s2 a rs = scales_along k ?pct ?fx ?st2 rs"
      by simp
    show ?thesis
      unfolding commission_scales.simps scales_along.simps head e u sum.case ih Inr ..
  qed
qed

lemma map2_add_scaled:
  "map2 (+) (map ((*) j) vs) vs = map ((*) (j + 1)) (vs::real list)"
  by (induction vs) (simp_all add: algebra_simps)

text \<open>Every further asset with the same series adds its values to the same entries.\<close>

lemma backtest_assets_same_series:
  assumes "asset_run (commission_pct self) (commission_fixed self)
             (init_state (initial_capital self / real m)) rows = Inr (stf, vs)"
    and "daily_portfolio_values self = map ((*) j) vs"
  shows "\<exists>s. backtest_assets self m (map (\<lambda>a. (a, rows)) names) = Inr s
           \<and> daily_portfolio_values s = map ((*) (j + real (length names))) vs"
  using assms
proof (induction names arbitrary: self j)
  case Nil
  then show ?case by simp
next
  case (Cons a names)
  let ?s0 = "init_asset self m a"
  let ?d = "daily_portfolio_values self"
  from asset_run_length [OF Cons.prems(1)] have len: "length vs = length rows" .
  have n: "length rows \<le> length (daily_portfolio_values ?s0)"
    and l: "length ([]::real list) + length rows \<le> length (daily_portfolio_values ?s0)"
    using Cons.prems(2) len by (simp_all add: init_asset_simps)
  have run: "asset_run (commission_pct ?s0) (commission_fixed ?s0)
      (init_state (initial_capital self / real m)) rows = Inr (stf, vs)"
    using Cons.prems(1) by (simp add: init_asset_simps)
  let ?s2 = "?s0\<lparr>assets_data := (assets_data ?s0)(a \<mapsto> stf),
                 portfolio_history := (portfolio_history ?s0)(a \<mapsto> [] @ vs),
                 daily_portfolio_values := add_from (length ([]::real list)) vs
                    (daily_portfolio_values ?s0)\<rparr>"
  have rows: "backtest_rows ?s0 a (length rows) rows = Inr ?s2"
    unfolding backtest_rows_add [OF init_asset_simps(1) init_asset_simps(2) n l] run
    by simp
  have "add_from 0 vs ?d = take 0 ?d @ map2 (+) (drop 0 ?d) vs"
    using Cons.prems(2) by (intro add_from_eq) simp
  then have d2: "daily_portfolio_values ?s2 = map ((*) (j + 1)) vs"
    using Cons.prems(2) by (simp add: init_asset_simps map2_add_scaled)
  have run2: "asset_run (commission_pct ?s2) (commission_fixed ?s2)
      (init_state (initial_capital ?s2 / real m)) rows = Inr (stf, vs)"
    using Cons.prems(1) by (simp add: init_asset_simps)
  from Cons.IH [OF run2 d2] obtain s where
    "backtest_assets ?s2 m (map (\<lambda>a. (a, rows)) names) = Inr s"
    "daily_portfolio_values s = map ((*) (j + 1 + real (length names))) vs"
    by blast
  with rows show ?case by (simp add: add.assoc add.commute)
qed

lemma backtest_single:
  "map_sum id daily_portfolio_values (backtest (Backtester c pct fixed) (SingleAsset rows))
   = map_sum id snd (asset_run pct fixed (init_state c) rows)"
proof -
  let ?B = "Backtester c pct fixed" and ?a = "''SINGLE_ASSET''"
  let ?s0 = "init_asset ?B 1 ?a"
  have a: "assets_data ?s0 ?a = Some (init_state c)"
    using init_asset_simps(1) [of ?B 1 ?a] by (simp add: Backtester_def)
  have l: "length (daily_portfolio_values ?s0) + length rows \<le> length rows"
    by (simp add: init_asset_simps Backtester_def)
  have pf: "commission_pct ?s0 = pct" "commission_fixed ?s0 = fixed"
    "daily_portfolio_values ?s0 = []"
    by (simp_all add: init_asset_simps Backtester_def)
  have "backtest ?B (SingleAsset rows) =
      (case backtest_rows ?s0 ?a (length rows) rows of Inl e \<Rightarrow> Inl e | Inr s \<Rightarrow> Inr s)"
    by (simp add: backtest_def split: sum.splits)
  then show ?thesis
    unfolding backtest_rows_append [OF a init_asset_simps(2) l] pf
    by (simp split: sum.splits prod.splits)
qed

text \<open>
  C4, amended. A fresh backtester run on N >= 1 assets that all carry the same series
  reports the same daily portfolio values as a run on that series alone with the whole
  capital, and fails with the same error if that run fails, provided that N = 1, or the
  fixed commission is 0, or at every trade of the run on the series alone the commission
  on the N-th part of the trade value is the N-th part of the commission on the trade
  value. The equality is one of exact arithmetic.
\<close>

theorem backtest_split_capital_proportional_commission:
  assumes "names \<noteq> []"
    and "length names = 1 \<or> fixed = 0
       \<or> commission_scales (1 / real (length names))
            (init_asset (Backtester c pct fixed) 1 ''SINGLE_ASSET'') ''SINGLE_ASSET'' rows"
  shows "map_sum id daily_portfolio_values
           (backtest (Backtester c pct fixed) (MultiAsset (map (\<lambda>a. (a, rows)) names)))
       = map_sum id daily_portfolio_values
           (backtest (Backtester c pct fixed) (SingleAsset rows))"
proof -
  let ?B = "Backtester c pct fixed"
  let ?N = "real (length names)"
  from assms(1) obtain a rest where names: "names = a # rest" by (cases names) auto
  have N: "0 < ?N" using assms(1) by simp
  let ?k = "1 / ?N"
  have k: "0 < ?k" using N by simp
  have sc: "scales_along ?k pct fixed (init_state c) rows"
  proof -
    let ?s = "init_asset ?B 1 ''SINGLE_ASSET''"
    have a: "assets_data ?s ''SINGLE_ASSET'' = Some (init_state c)"
      using init_asset_simps(1) [of ?B 1 "''SINGLE_ASSET''"] by (simp add: Backtester_def)
    have "commission_scales ?k ?s ''SINGLE_ASSET'' rows
        = scales_along ?k (commission_pct ?s) (commission_fixed ?s) (init_state c) rows"
      by (rule commission_scales_along [OF a init_asset_simps(2)])
    then have link: "commission_scales ?k ?s ''SINGLE_ASSET'' rows
        = scales_along ?k pct fixed (init_state c) rows"
      by (simp add: init_asset_simps Backtester_def)
    from assms(2) consider "length names = 1" | "fixed = 0"
      | "commission_scales ?k ?s ''SINGLE_ASSET'' rows"
      by blast
    then show ?thesis
    proof cases
      case 1
      then show ?thesis by (simp add: scales_along_one)
    next
      case 2
      with k show ?thesis by (simp add: scales_along_no_fixed)
    next
      case 3
      with link show ?thesis by simp
    qed
  qed
  define m where "m = length names"
  have mN: "real m = ?N" by (simp add: m_def)
  let ?s0 = "init_asset ?B m a"
  have init: "init_state (c / ?N) = scale ?k (init_state c)"
    by (simp add: init_state_def scale_def)
  have a0: "assets_data ?s0 a = Some (init_state (c / ?N))"
    using init_asset_simps(1) [of ?B m a] by (simp add: Backtester_def mN)
  have pf: "commission_pct ?s0 = pct" "commission_fixed ?s0 = fixed"
    "daily_portfolio_values ?s0 = []"
    by (simp_all add: init_asset_simps Backtester_def)
  have l: "length (daily_portfolio_values ?s0) + length rows \<le> length rows"
    by (simp add: pf)
  have e1: "backtest ?B (MultiAsset (map (\<lambda>a. (a, rows)) names)) =
      backtest_assets ?B m (map (\<lambda>a. (a, rows)) names)"
    by (simp add: backtest_def m_def)
  have e2: "map (\<lambda>a. (a, rows)) names = (a, rows) # map (\<lambda>a. (a, rows)) rest"
    by (simp add: names)
  have multi: "backtest ?B (MultiAsset (map (\<lambda>a. (a, rows)) names)) =
      (case backtest_rows ?s0 a (length rows) rows of
         Inl e \<Rightarrow> Inl e
       | Inr s2 \<Rightarrow> backtest_assets s2 m (map (\<lambda>a. (a, rows)) rest))"
    using e1 by (simp add: e2)
  have first: "backtest_rows ?s0 a (length rows) rows =
      (case asset_run pct fixed (init_state (c / ?N)) rows of
         Inl e \<Rightarrow> Inl e
       | Inr (st', vs) \<Rightarrow>
           Inr (?s0\<lparr>assets_data := (assets_data ?s0)(a \<mapsto> st'),
                    portfolio_history := (portfolio_history ?s0)(a \<mapsto> [] @ vs),
                    daily_portfolio_values := [] @ vs\<rparr>))"
    using backtest_rows_append [OF a0 init_asset_simps(2) l] by (simp only: pf)
  have scaled: "asset_run pct fixed (init_state (c / ?N)) rows =
      map_sum id (\<lambda>(st', vs). (scale ?k st', map ((*) ?k) vs))
        (asset_run pct fixed (init_state c) rows)"
    unfolding init by (rule asset_run_scale [OF k sc])
  show ?thesis
  proof (cases "asset_run pct fixed (init_state c) rows")
    case (Inl e)
    then show ?thesis
      by (simp add: multi first scaled backtest_single)
  next
    case (Inr res)
    obtain stf vs where res: "res = (stf, vs)" by (cases res)
    let ?vk = "map ((*) ?k) vs"
    let ?s2 = "?s0\<lparr>assets_data := (assets_data ?s0)(a \<mapsto> scale ?k stf),
                   portfolio_history := (portfolio_history ?s0)(a \<mapsto> [] @ ?vk),
                   daily_portfolio_values := [] @ ?vk\<rparr>"
    have runk: "asset_run pct fixed (init_state (c / ?N)) rows = Inr (scale ?k stf, ?vk)"
      using scaled Inr res by simp
    have f2: "backtest_rows ?s0 a (length rows) rows = Inr ?s2"
      unfolding first runk by simp
    have run2: "asset_run (commission_pct ?s2) (commission_fixed ?s2)
        (init_state (initial_capital ?s2 / real m)) rows
        = Inr (scale ?k stf, ?vk)"
      using runk by (simp add: init_asset_simps Backtester_def mN)
    have d2: "daily_portfolio_values ?s2 = map ((*) 1) ?vk" by simp
    from backtest_assets_same_series [OF run2 d2, of rest] obtain s where
      s: "backtest_assets ?s2 m (map (\<lambda>a. (a, rows)) rest) = Inr s"
      and ds: "daily_portfolio_values s = map ((*) (1 + real (length rest))) ?vk"
      by blast
    have "1 + real (length rest) = ?N" using names by simp
    with ds N have "daily_portfolio_values s = vs"
      by (simp add: o_def)
    with s f2 Inr res show ?thesis
      by (simp add: multi backtest_single)
  qed
qed

theorem backtest_split_capital_proportional_commission_witness:
  "map_sum id daily_portfolio_values
     (backtest (Backtester 10000 (1 / 1000) 1)
        (MultiAsset [(''A'', [\<lparr>close = 100, signal = 1\<rparr>, \<lparr>close = 110, signal = - 1\<rparr>]),
                     (''B'', [\<lparr>close = 100, signal = 1\<rparr>, \<lparr>close = 110, signal = - 1\<rparr>])]))
   = Inr [9990, 10978011 / 1000]"
proof -
  let ?rows = "[\<lparr>close = 100, signal = 1\<rparr>, \<lparr>close = 110, signal = - 1\<rparr>]"
  have n: "[''A'', ''B''] \<noteq> []" by simp
  have "commission_scales (1 / real (length [''A'', ''B'']))
      (init_asset (Backtester 10000 (1 / 1000) 1) 1 ''SINGLE_ASSET'') ''SINGLE_ASSET'' ?rows"
    by (simp add: Backtester_def init_asset_def execute_trade_def Let_def
        calculate_commission_def update_portfolio_def)
  then have h: "length [''A'', ''B''] = 1 \<or> (1::real) = 0
      \<or> commission_scales (1 / real (length [''A'', ''B'']))
          (init_asset (Backtester 10000 (1 / 1000) 1) 1 ''SINGLE_ASSET'') ''SINGLE_ASSET'' ?rows"
    by blast
  have "map_sum id daily_portfolio_values
     (backtest (Backtester 10000 (1 / 1000) 1) (SingleAsset ?rows))
     = Inr [9990, 10978011 / 1000]"
    by (simp add: backtest_def Backtester_def init_asset_def execute_trade_def Let_def
        calculate_commission_def update_portfolio_def record_daily_value_def)
  with backtest_split_capital_proportional_commission [OF n h]
  show ?thesis by simp
qed

section \<open>The driver on numpy scalars\<close>










section \<open>The performance metrics\<close>

text \<open>
  C10. For a positive initial capital \<open>c\<close> and any return \<open>r\<close>, the total return of the
  final value \<open>c * (1 + r)\<close> on \<open>c\<close> is \<open>r\<close>, in exact arithmetic.
\<close>

theorem calculate_total_return_round_trip:
  "0 < c \<Longrightarrow> calculate_total_return (c * (1 + r)) c = Inr r"
  by (simp add: calculate_total_return_def)

theorem calculate_total_return_round_trip_witness:
  "calculate_total_return (10000 * (1 + 1 / 4)) 10000 = Inr (1 / 4)"
proof -
  have "(0::real) < 10000" by simp
  from calculate_total_return_round_trip [OF this, of "1 / 4"] show ?thesis .
qed

lemma sharpe_nonzero_volatility:
  "v \<noteq> 0 \<Longrightarrow> calculate_sharpe_ratio float_truediv a v rf = Inr (Fin ((a - rf) / v))"
  "v \<noteq> 0 \<Longrightarrow> calculate_sharpe_ratio float64_truediv a v rf = Inr (Fin ((a - rf) / v))"
  by (simp_all add: calculate_sharpe_ratio_def float_truediv_def float64_truediv_def
      float64_divide_def)

text \<open>
  C3. The claim is that a volatility of 0 gives not-a-number, with no exception and no
  infinity. The code does not do that: at an annualized return of 0.1 and a volatility of
  0, Python floats raise \<open>ZeroDivisionError\<close>, which the handler for \<open>RuntimeError\<close> does
  not catch, and \<open>numpy.float64\<close> operands give plus infinity.
\<close>

theorem sharpe_zero_volatility_not_nan:
  "calculate_sharpe_ratio float_truediv (1 / 10) 0 0 = Inl ZeroDivisionError
   \<and> calculate_sharpe_ratio float64_truediv (1 / 10) 0 0 = Inr PInf"
  by (simp add: calculate_sharpe_ratio_def float_truediv_def float64_truediv_def
      float64_divide_def)

lemma length_cummax_from: "length (cummax_from m xs) = length xs"
  by (induction xs arbitrary: m) simp_all

lemma length_cummax: "length (cummax xs) = length xs"
  by (simp add: cummax_def length_cummax_from split: list.splits)

lemma cummax_from_nth:
  "t < length xs \<Longrightarrow> cummax_from m xs ! t = Max (insert m (set (take (Suc t) xs)))"
proof (induction xs arbitrary: m t)
  case Nil
  then show ?case by simp
next
  case (Cons x xs)
  show ?case
  proof (cases t)
    case 0
    then show ?thesis by (simp add: max.commute)
  next
    case (Suc k)
    with Cons.prems have k: "k < length xs" by simp
    have "cummax_from m (x # xs) ! t = Max (insert (max m x) (set (take (Suc k) xs)))"
      using Suc Cons.IH [OF k] by simp
    also have "\<dots> = Max (insert m (insert x (set (take (Suc k) xs))))"
      by (cases "set (take (Suc k) xs) = {}") (simp_all add: max.assoc)
    finally show ?thesis using Suc by simp
  qed
qed

lemma cummax_nth: "t < length xs \<Longrightarrow> cummax xs ! t = running_max xs t"
proof (cases xs)
  case Nil
  then show "t < length xs \<Longrightarrow> ?thesis" by simp
next
  case (Cons x rest)
  assume t: "t < length xs"
  show ?thesis
  proof (cases t)
    case 0
    then show ?thesis by (simp add: Cons cummax_def running_max_def)
  next
    case (Suc k)
    then show ?thesis using t Cons
      by (simp add: cummax_def running_max_def cummax_from_nth)
  qed
qed

lemma running_max_ge: "t < length vs \<Longrightarrow> vs ! t \<le> running_max vs t"
  unfolding running_max_def
  by (rule Max_ge) (auto simp: in_set_conv_nth intro!: exI [of _ t])

lemma series_min_Fin: "ds \<noteq> [] \<Longrightarrow> series_min (map Fin ds) = Fin (Min (set ds))"
proof (induction ds)
  case Nil
  then show ?case by simp
next
  case (Cons d ds)
  then show ?case by (cases ds) (simp_all add: min.commute)
qed

lemma drawdown_Fin:
  assumes "\<forall>v\<in>set vs. 0 < v"
  shows "map2 (\<lambda>v m. fl_minus (float64_divide v m) 1) vs (cummax vs)
       = map Fin (map (\<lambda>t. vs ! t / running_max vs t - 1) [0..<length vs])"
proof (rule nth_equalityI)
  show "length (map2 (\<lambda>v m. fl_minus (float64_divide v m) 1) vs (cummax vs))
      = length (map Fin (map (\<lambda>t. vs ! t / running_max vs t - 1) [0..<length vs]))"
    by (simp add: length_cummax)
next
  fix i
  assume "i < length (map2 (\<lambda>v m. fl_minus (float64_divide v m) 1) vs (cummax vs))"
  then have i: "i < length vs" by (simp add: length_cummax)
  have "0 < vs ! i" using assms i by simp
  with running_max_ge [OF i] have "running_max vs i \<noteq> 0" by linarith
  then show "map2 (\<lambda>v m. fl_minus (float64_divide v m) 1) vs (cummax vs) ! i
      = map Fin (map (\<lambda>t. vs ! t / running_max vs t - 1) [0..<length vs]) ! i"
    using i by (simp add: length_cummax cummax_nth float64_divide_def)
qed

lemma sorted_iff_running_max:
  "sorted vs \<longleftrightarrow> (\<forall>t<length vs. vs ! t = running_max vs t)"
proof
  assume s: "sorted vs"
  show "\<forall>t<length vs. vs ! t = running_max vs t"
  proof (intro allI impI)
    fix t assume t: "t < length vs"
    have "running_max vs t \<le> vs ! t"
      unfolding running_max_def
    proof (rule Max.boundedI)
      show "finite (set (take (Suc t) vs))" by simp
      show "set (take (Suc t) vs) \<noteq> {}" using t by auto
      fix a assume "a \<in> set (take (Suc t) vs)"
      then obtain j where "j < Suc t" "j < length vs" "a = vs ! j"
        by (auto simp: in_set_conv_nth)
      then show "a \<le> vs ! t" using s t by (simp add: sorted_iff_nth_mono)
    qed
    with running_max_ge [OF t] show "vs ! t = running_max vs t" by simp
  qed
next
  assume r: "\<forall>t<length vs. vs ! t = running_max vs t"
  show "sorted vs"
    unfolding sorted_iff_nth_mono
  proof (intro allI impI)
    fix i j assume ij: "i \<le> j" "j < length vs"
    have "vs ! i \<in> set (take (Suc j) vs)"
      using ij by (auto simp: in_set_conv_nth intro!: exI [of _ i])
    then have "vs ! i \<le> running_max vs j"
      unfolding running_max_def by simp
    then show "vs ! i \<le> vs ! j" using r ij by simp
  qed
qed

text \<open>
  C7. On a non-empty series of positive values the maximum drawdown is the minimum over
  the steps of value over running maximum, minus one; it is at most 0, and it is 0
  exactly when the series never decreases.
\<close>

theorem calculate_maximum_drawdown_spec:
  assumes "vs \<noteq> []" and "\<forall>v\<in>set vs. 0 < v"
  shows "calculate_maximum_drawdown vs = Fin (min_drawdown vs)
       \<and> min_drawdown vs \<le> 0
       \<and> (min_drawdown vs = 0 \<longleftrightarrow> sorted vs)"
proof -
  let ?f = "\<lambda>t. vs ! t / running_max vs t - 1"
  let ?ds = "map ?f [0..<length vs]"
  have ne: "?ds \<noteq> []" using assms(1) by simp
  have eq: "calculate_maximum_drawdown vs = Fin (min_drawdown vs)"
    unfolding calculate_maximum_drawdown_def Let_def min_drawdown_def
    using drawdown_Fin [OF assms(2)] series_min_Fin [OF ne] by simp
  have pos: "0 < running_max vs t" if "t < length vs" for t
    using running_max_ge [OF that] assms(2) that
    by (meson less_le_trans nth_mem)
  have le: "?f t \<le> 0" if "t < length vs" for t
    using running_max_ge [OF that] pos [OF that] by simp
  have zero: "?f t = 0 \<longleftrightarrow> vs ! t = running_max vs t" if "t < length vs" for t
    using pos [OF that] by auto
  have fin: "finite (set ?ds)" and nes: "set ?ds \<noteq> {}" using ne by simp_all
  have all_le: "\<forall>d\<in>set ?ds. d \<le> 0" using le by auto
  have mem: "min_drawdown vs \<in> set ?ds"
    unfolding min_drawdown_def using fin nes by (rule Min_in)
  have min_le: "min_drawdown vs \<le> 0"
    using all_le mem by blast
  have "min_drawdown vs = 0 \<longleftrightarrow> (\<forall>d\<in>set ?ds. d = 0)"
  proof
    assume m: "min_drawdown vs = 0"
    show "\<forall>d\<in>set ?ds. d = 0"
    proof
      fix d assume d: "d \<in> set ?ds"
      then have "min_drawdown vs \<le> d" unfolding min_drawdown_def by simp
      with m all_le d show "d = 0" by force
    qed
  next
    assume "\<forall>d\<in>set ?ds. d = 0"
    with mem show "min_drawdown vs = 0" by blast
  qed
  also have "\<dots> \<longleftrightarrow> (\<forall>t<length vs. vs ! t = running_max vs t)"
    using zero by auto
  also have "\<dots> \<longleftrightarrow> sorted vs" by (simp add: sorted_iff_running_max)
  finally show ?thesis using eq min_le by simp
qed

theorem calculate_maximum_drawdown_spec_witness:
  "calculate_maximum_drawdown [100, 100, 110, 120] = Fin 0
   \<and> min_drawdown [100, 80, 110, 55] = - (1 / 2)
   \<and> \<not> sorted [100, 80, 110, 55 :: real]"
proof -
  have a: "calculate_maximum_drawdown [100, 100, 110, 120] = Fin 0"
    using calculate_maximum_drawdown_spec [of "[100, 100, 110, 120]"] by simp
  have "calculate_maximum_drawdown [100, 80, 110, 55] = Fin (- (1 / 2))"
    by (simp add: calculate_maximum_drawdown_def cummax_def float64_divide_def)
  then have b: "min_drawdown [100, 80, 110, 55] = - (1 / 2)"
    using calculate_maximum_drawdown_spec [of "[100, 80, 110, 55]"] by simp
  from a b show ?thesis by simp
qed

lemma sample_std_short: "length xs \<le> 1 \<Longrightarrow> sample_std xs = 0"
proof (cases xs)
  case Nil
  then show ?thesis by (simp add: sample_std_def)
next
  case (Cons x rest)
  assume "length xs \<le> 1"
  with Cons have "rest = []" by simp
  with Cons show ?thesis by (simp add: sample_std_def)
qed

lemma std_sample_std: "2 \<le> length xs \<Longrightarrow> std xs = Fin (sample_std xs)"
proof -
  assume a: "2 \<le> length xs"
  then have "real (length xs - 1) = real (length xs) - 1" by simp
  with a show ?thesis by (simp add: std_def sample_std_def mean_def)
qed

text \<open>
  C8. When no daily return is negative, the Sortino ratio is not-a-number. When the
  downside volatility, the sample standard deviation of the negative returns times the
  square root of 252, is positive, the ratio is the annualized return less the
  risk-free rate, over the downside volatility.
\<close>

theorem calculate_sortino_ratio_spec:
  "((\<forall>r\<in>set daily_returns. 0 \<le> r) \<longrightarrow>
      calculate_sortino_ratio daily_returns annualized_return risk_free_rate = NaN)
   \<and> (0 < sample_std (filter (\<lambda>r. r < 0) daily_returns) * sqrt 252 \<longrightarrow>
      calculate_sortino_ratio daily_returns annualized_return risk_free_rate =
        Fin ((annualized_return - risk_free_rate)
             / (sample_std (filter (\<lambda>r. r < 0) daily_returns) * sqrt 252)))"
proof (intro conjI impI)
  assume "\<forall>r\<in>set daily_returns. 0 \<le> r"
  then have "filter (\<lambda>r. r < 0) daily_returns = []"
    by (auto simp: filter_empty_conv)
  then show "calculate_sortino_ratio daily_returns annualized_return risk_free_rate = NaN"
    by (simp add: calculate_sortino_ratio_def std_def)
next
  let ?neg = "filter (\<lambda>r. r < 0) daily_returns"
  assume a: "0 < sample_std ?neg * sqrt 252"
  have "\<not> length ?neg \<le> 1"
  proof
    assume "length ?neg \<le> 1"
    then have "sample_std ?neg = 0" by (rule sample_std_short)
    with a show False by simp
  qed
  then have s: "std ?neg = Fin (sample_std ?neg)" by (simp add: std_sample_std)
  from a have nz: "sample_std ?neg * sqrt 252 \<noteq> 0" by auto
  show "calculate_sortino_ratio daily_returns annualized_return risk_free_rate =
        Fin ((annualized_return - risk_free_rate) / (sample_std ?neg * sqrt 252))"
    using a nz unfolding calculate_sortino_ratio_def Let_def s
    by (simp add: float64_divide_def)
qed

theorem calculate_sortino_ratio_spec_witness:
  "calculate_sortino_ratio [1 / 100, 0, 2 / 100] (1 / 5) 0 = NaN
   \<and> calculate_sortino_ratio [- 1 / 100, 2 / 100, - 3 / 100] (1 / 5) 0 =
       Fin (1 / 5 / (sample_std [- 1 / 100, - 3 / 100] * sqrt 252))
   \<and> 0 < sample_std [- 1 / 100, - 3 / 100] * sqrt 252"
proof -
  have p: "0 < sample_std (filter (\<lambda>r. r < 0) [- 1 / 100, 2 / 100, - 3 / 100]) * sqrt 252"
    by (simp add: sample_std_def)
  from calculate_sortino_ratio_spec [of "[1 / 100, 0, 2 / 100]" "1 / 5" 0]
    calculate_sortino_ratio_spec [of "[- 1 / 100, 2 / 100, - 3 / 100]" "1 / 5" 0] p
  show ?thesis by simp
qed

end
